theory Spec2Isabelle
  imports Complex_Main
begin

section \<open>JavaScript numbers\<close>

text \<open>
  The script computes with JavaScript numbers. A number is modelled as the not-a-number
  value, one of the two infinities, or a finite value. Finite values are rationals and the
  operations on them are exact: the rounding of IEEE doubles and the sign of zero are not
  modelled. The epoch values and millisecond counts of this program are integers far below
  \<open>2^53\<close>, where the operations used here are exact on doubles too, except the division
  by 1000 of a parsed date.
\<close>

datatype jsnum = NaN | NInf | Fin rat | PInf

fun js_neg :: "jsnum \<Rightarrow> jsnum" where
  "js_neg NaN = NaN"
| "js_neg NInf = PInf"
| "js_neg PInf = NInf"
| "js_neg (Fin a) = Fin (- a)"

fun js_add :: "jsnum \<Rightarrow> jsnum \<Rightarrow> jsnum" where
  "js_add NaN y = NaN"
| "js_add x NaN = NaN"
| "js_add PInf NInf = NaN"
| "js_add NInf PInf = NaN"
| "js_add PInf y = PInf"
| "js_add NInf y = NInf"
| "js_add x PInf = PInf"
| "js_add x NInf = NInf"
| "js_add (Fin a) (Fin b) = Fin (a + b)"

definition js_sub :: "jsnum \<Rightarrow> jsnum \<Rightarrow> jsnum" where
  "js_sub x y = js_add x (js_neg y)"

text \<open>The sign of a number that is not NaN: \<open>-1\<close>, \<open>0\<close> or \<open>1\<close>.\<close>

fun js_sign :: "jsnum \<Rightarrow> int" where
  "js_sign NaN = 0"
| "js_sign NInf = - 1"
| "js_sign PInf = 1"
| "js_sign (Fin a) = (if a < 0 then - 1 else if a = 0 then 0 else 1)"

definition js_inf :: "int \<Rightarrow> jsnum" where
  "js_inf sg = (if sg = 0 then NaN else if sg < 0 then NInf else PInf)"

fun js_mul :: "jsnum \<Rightarrow> jsnum \<Rightarrow> jsnum" where
  "js_mul NaN y = NaN"
| "js_mul x NaN = NaN"
| "js_mul (Fin a) (Fin b) = Fin (a * b)"
| "js_mul x y = js_inf (js_sign x * js_sign y)"

text \<open>
  Division. A zero divisor is treated as positive zero; the program only ever divides by
  the literals 1000 and 60 and by a positive length.
\<close>

fun js_div :: "jsnum \<Rightarrow> jsnum \<Rightarrow> jsnum" where
  "js_div NaN y = NaN"
| "js_div x NaN = NaN"
| "js_div (Fin a) (Fin b) = (if b = 0 then js_inf (js_sign (Fin a)) else Fin (a / b))"
| "js_div (Fin a) y = Fin 0"
| "js_div x (Fin b) = js_inf (js_sign x * (if b < 0 then - 1 else 1))"
| "js_div x y = NaN"

text \<open>The comparison \<open>x <= y\<close>: false as soon as one side is NaN.\<close>

fun js_le :: "jsnum \<Rightarrow> jsnum \<Rightarrow> bool" where
  "js_le NaN y = False"
| "js_le x NaN = False"
| "js_le NInf y = True"
| "js_le x PInf = True"
| "js_le PInf y = False"
| "js_le x NInf = False"
| "js_le (Fin a) (Fin b) = (a \<le> b)"

text \<open>\<open>Math.min\<close> of two arguments, \<open>Math.floor\<close> and \<open>Math.round\<close>.\<close>

definition Math_min :: "jsnum \<Rightarrow> jsnum \<Rightarrow> jsnum" where
  "Math_min x y = (if x = NaN \<or> y = NaN then NaN else if js_le x y then x else y)"

fun Math_floor :: "jsnum \<Rightarrow> jsnum" where
  "Math_floor (Fin a) = Fin (of_int \<lfloor>a\<rfloor>)"
| "Math_floor x = x"

fun Math_round :: "jsnum \<Rightarrow> jsnum" where
  "Math_round (Fin a) = Fin (of_int \<lfloor>a + 1 / 2\<rfloor>)"
| "Math_round x = x"

section \<open>The wait-time computation\<close>

text \<open>
  The argument of \<open>calculateWaitTime\<close> has the type
  \<open>string | number | undefined | null\<close>.
\<close>

datatype resetTime = Undefined | Null | Str string | Num jsnum

text \<open>JavaScript truthiness of such a value, as tested by \<open>!resetTime\<close>.\<close>

fun truthy :: "resetTime \<Rightarrow> bool" where
  "truthy Undefined = False"
| "truthy Null = False"
| "truthy (Str s) = (s \<noteq> [])"
| "truthy (Num n) = (n \<noteq> NaN \<and> n \<noteq> Fin 0)"

definition DELETE_INTERVAL :: jsnum where
  "DELETE_INTERVAL = Fin 5000"

definition MIN_API_LIMIT_WAIT :: jsnum where
  "MIN_API_LIMIT_WAIT = Fin 900000"

definition MAX_API_LIMIT_WAIT :: jsnum where
  "MAX_API_LIMIT_WAIT = Fin 3600000"

text \<open>The source declares one more constant, which no function refers to.\<close>

definition MAX_RETRIES :: nat where
  "MAX_RETRIES = 3"

text \<open>
  \<open>calculateWaitTime\<close> reads the clock and parses dates. Both belong to the JavaScript
  runtime and are parameters here: \<open>getTime s\<close> is \<open>new Date(s).getTime()\<close>
  (milliseconds, or NaN for an invalid date) and \<open>now_ms\<close> is the value of
  \<open>Date.now()\<close>, an integer number of milliseconds.
\<close>

definition calculateWaitTime :: "(string \<Rightarrow> jsnum) \<Rightarrow> int \<Rightarrow> resetTime \<Rightarrow> jsnum" where
  "calculateWaitTime getTime now_ms resetTime =
    (if \<not> truthy resetTime then MIN_API_LIMIT_WAIT
     else
       let resetTimestamp =
             (case resetTime of
                Str s \<Rightarrow> js_div (getTime s) (Fin 1000)
              | Num n \<Rightarrow> n
              | _ \<Rightarrow> js_div (Fin (of_int now_ms)) (Fin 1000));
           now = Math_floor (js_div (Fin (of_int now_ms)) (Fin 1000));
           waitSeconds = js_sub resetTimestamp now
       in if js_le waitSeconds (Fin 0) then MIN_API_LIMIT_WAIT
          else Math_min (js_add (js_mul waitSeconds (Fin 1000)) (Fin 60000)) MAX_API_LIMIT_WAIT)"

text \<open>
  The reading of the specification: the reset marker is absent when it is \<open>undefined\<close>
  or \<open>null\<close>; otherwise its value in epoch seconds is the number itself, or the parsed
  date of the string divided by 1000.
\<close>

fun resetTimestampSeconds :: "(string \<Rightarrow> jsnum) \<Rightarrow> resetTime \<Rightarrow> jsnum option" where
  "resetTimestampSeconds getTime Undefined = None"
| "resetTimestampSeconds getTime Null = None"
| "resetTimestampSeconds getTime (Str s) = Some (js_div (getTime s) (Fin 1000))"
| "resetTimestampSeconds getTime (Num n) = Some n"

definition currentEpochSeconds :: "int \<Rightarrow> rat" where
  "currentEpochSeconds now_ms = of_int (now_ms div 1000)"

section \<open>The platform API client and the state of a run\<close>

text \<open>
  A post as the timeline returns it: \<open>id\<close> and the optional \<open>created_at\<close>.
\<close>

record tweet =
  tweet_id :: string
  created_at :: "string option"

text \<open>
  A value thrown by a call of the API client, taken to be an object. The control flow
  looks at it in four ways: \<open>error instanceof ApiResponseError\<close>,
  \<open>error.rateLimitError\<close>, \<open>error.code\<close> (compared with the number 429 by
  \<open>===\<close>, so only a numeric code matters) and \<open>error.rateLimit?.reset\<close>.
\<close>

record api_error =
  is_ApiResponseError :: bool
  rateLimitError :: bool
  error_code :: "int option"
  rateLimit_reset :: resetTime

definition isRateLimitError :: "api_error \<Rightarrow> bool" where
  "isRateLimitError error = (is_ApiResponseError error \<and> rateLimitError error)"

text \<open>
  What a run does is recorded as a trace of events: the calls of the API client, the
  sleeps, and the lines written to the console. A console line is kept by its fixed text
  and its data; \<open>formatRateLimit(x)\<close> is kept as the object \<open>x\<close> it formats.
\<close>

datatype rl_source = Of_userByUsername | Of_userTimeline | Of_deleteTweet | Of_error api_error

datatype console =
    Log string
  | LogRateLimit string rl_source
  | LogError string api_error
  | LogWaiting jsnum
  | LogFound nat
  | LogProgress nat nat jsnum
  | LogCount string nat

datatype event =
    Call_me
  | Call_userByUsername string
  | Call_userTimeline string nat
  | Call_deleteTweet string
  | Sleep jsnum
  | Console console

text \<open>The mutable state: the module variable \<open>USER_ID\<close> and the trace so far.\<close>

record state =
  USER_ID :: "string option"
  trace :: "event list"

text \<open>
  The environment of a run: the configured user name, the date parser, the clock, and the
  platform. The clock gives the value of \<open>Date.now()\<close> as a function of the number of
  events so far. Each operation of the API client answers its \<open>k\<close>-th call (counted from
  0, per operation) with a thrown error (\<open>Inl\<close>) or a result (\<open>Inr\<close>):
  \<open>me\<close> with the user id, \<open>userByUsername\<close> with the id of \<open>data\<close> when
  \<open>data\<close> is present, \<open>userTimeline\<close> with the \<open>tweets\<close> of the page.
\<close>

record env =
  USERNAME :: string
  getTime :: "string \<Rightarrow> jsnum"
  clock :: "nat \<Rightarrow> int"
  v2_me :: "nat \<Rightarrow> api_error + string"
  v2_userByUsername :: "nat \<Rightarrow> string \<Rightarrow> api_error + string option"
  v2_userTimeline :: "nat \<Rightarrow> string \<Rightarrow> nat \<Rightarrow> api_error + tweet list option"
  v2_deleteTweet :: "nat \<Rightarrow> string \<Rightarrow> api_error + unit"

fun is_me :: "event \<Rightarrow> bool" where
  "is_me Call_me = True"
| "is_me ev = False"

fun is_userByUsername :: "event \<Rightarrow> bool" where
  "is_userByUsername (Call_userByUsername u) = True"
| "is_userByUsername ev = False"

fun is_userTimeline :: "event \<Rightarrow> bool" where
  "is_userTimeline (Call_userTimeline u m) = True"
| "is_userTimeline ev = False"

fun is_deleteTweet :: "event \<Rightarrow> bool" where
  "is_deleteTweet (Call_deleteTweet i) = True"
| "is_deleteTweet ev = False"

fun is_sleep :: "event \<Rightarrow> bool" where
  "is_sleep (Sleep ms) = True"
| "is_sleep ev = False"

definition emit :: "event \<Rightarrow> state \<Rightarrow> state" where
  "emit ev s = s\<lparr>trace := trace s @ [ev]\<rparr>"

definition count :: "(event \<Rightarrow> bool) \<Rightarrow> state \<Rightarrow> nat" where
  "count p s = length (filter p (trace s))"

definition Date_now :: "env \<Rightarrow> state \<Rightarrow> int" where
  "Date_now e s = clock e (length (trace s))"

definition sleep :: "jsnum \<Rightarrow> state \<Rightarrow> state" where
  "sleep ms s = emit (Sleep ms) s"

text \<open>The ids of the delete calls and the durations of the sleeps of a trace, in order.\<close>

fun delete_calls :: "event list \<Rightarrow> string list" where
  "delete_calls [] = []"
| "delete_calls (Call_deleteTweet i # evs) = i # delete_calls evs"
| "delete_calls (ev # evs) = delete_calls evs"

fun sleeps :: "event list \<Rightarrow> jsnum list" where
  "sleeps [] = []"
| "sleeps (Sleep ms # evs) = ms # sleeps evs"
| "sleeps (ev # evs) = sleeps evs"

section \<open>The operations of the script\<close>

text \<open>The \<open>catch\<close> block of \<open>checkApiStatus\<close>.\<close>

definition checkApiStatus_catch :: "api_error \<Rightarrow> state \<Rightarrow> bool \<times> state" where
  "checkApiStatus_catch error s0 =
    (let s1 = emit (Console (LogError ''Error occurred while checking API status:'' error)) s0;
         s2 = (if error_code error = Some 429
               then emit (Console (LogRateLimit [] (Of_error error))) s1 else s1)
     in (False, s2))"

definition checkApiStatus :: "env \<Rightarrow> state \<Rightarrow> bool \<times> state" where
  "checkApiStatus e s0 =
    (let s1 = emit (Console (Log ''Checking API status...'')) s0;
         userResponse = v2_userByUsername e (count is_userByUsername s1) (USERNAME e);
         s2 = emit (Call_userByUsername (USERNAME e)) s1
     in case userResponse of
          Inl error \<Rightarrow> checkApiStatus_catch error s2
        | Inr data \<Rightarrow>
            let s3 = emit (Console (Log ''[User Information API Rate Limit]'')) s2;
                s4 = emit (Console (LogRateLimit [] Of_userByUsername)) s3
            in (case data of
                  None \<Rightarrow> (True, s4)
                | Some uid \<Rightarrow>
                    let timelineResponse = v2_userTimeline e (count is_userTimeline s4) uid 5;
                        s5 = emit (Call_userTimeline uid 5) s4
                    in (case timelineResponse of
                          Inl error \<Rightarrow> checkApiStatus_catch error s5
                        | Inr page \<Rightarrow>
                            let s6 = emit (Console (Log ''[Timeline API Rate Limit]'')) s5;
                                s7 = emit (Console (LogRateLimit [] Of_userTimeline)) s6
                            in (True, s7))))"

text \<open>
  The rate-limit branch shared by the \<open>catch\<close> blocks of \<open>getUserId\<close> and
  \<open>getAllTweetsAtOnce\<close>, up to the sleep; the retry follows it.
\<close>

definition rateLimitWait :: "env \<Rightarrow> api_error \<Rightarrow> state \<Rightarrow> state" where
  "rateLimitWait e error s0 =
    (let resetTime = rateLimit_reset error;
         s1 = emit (Console (LogRateLimit ''Rate limit reached. Rate limit information:''
                      (Of_error error))) s0;
         waitTime = calculateWaitTime (getTime e) (Date_now e s1) resetTime;
         s2 = emit (Console (LogWaiting
                      (Math_floor (js_div (js_div waitTime (Fin 1000)) (Fin 60))))) s1
     in sleep waitTime s2)"

text \<open>
  \<open>getUserId\<close> and \<open>getAllTweetsAtOnce\<close> call themselves again after a rate-limit
  error, so they need not return: not returning is the value \<open>None\<close>. A returned pair
  holds the thrown error (\<open>Inl\<close>) or the result (\<open>Inr\<close>), and the state.
\<close>

partial_function (option) getUserId ::
  "env \<Rightarrow> state \<Rightarrow> ((api_error + string) \<times> state) option" where
  "getUserId e s0 =
    (if USER_ID s0 \<noteq> None \<and> USER_ID s0 \<noteq> Some []
     then Some (Inr (the (USER_ID s0)), s0)
     else
       let response = v2_me e (count is_me s0);
           s1 = emit Call_me s0
       in (case response of
             Inr uid \<Rightarrow> Some (Inr uid, s1)
           | Inl error \<Rightarrow>
               if isRateLimitError error then getUserId e (rateLimitWait e error s1)
               else Some (Inl error, s1)))"

text \<open>The \<open>try\<close> block of \<open>getAllTweetsAtOnce\<close>; \<open>response.tweets || []\<close>.\<close>

definition getAllTweetsAtOnce_try ::
  "env \<Rightarrow> state \<Rightarrow> ((api_error + tweet list) \<times> state) option" where
  "getAllTweetsAtOnce_try e s0 =
    (case getUserId e s0 of
       None \<Rightarrow> None
     | Some (Inl error, s1) \<Rightarrow> Some (Inl error, s1)
     | Some (Inr userId, s1) \<Rightarrow>
         let response = v2_userTimeline e (count is_userTimeline s1) userId 100;
             s2 = emit (Call_userTimeline userId 100) s1
         in (case response of
               Inl error \<Rightarrow> Some (Inl error, s2)
             | Inr None \<Rightarrow> Some (Inr [], s2)
             | Inr (Some tweets) \<Rightarrow> Some (Inr tweets, s2)))"

partial_function (option) getAllTweetsAtOnce ::
  "env \<Rightarrow> state \<Rightarrow> ((api_error + tweet list) \<times> state) option" where
  "getAllTweetsAtOnce e s0 =
    (case getAllTweetsAtOnce_try e s0 of
       None \<Rightarrow> None
     | Some (Inr tweets, s1) \<Rightarrow> Some (Inr tweets, s1)
     | Some (Inl error, s1) \<Rightarrow>
         if isRateLimitError error then getAllTweetsAtOnce e (rateLimitWait e error s1)
         else Some (Inl error, s1))"

text \<open>\<open>tweet.created_at\<close> as an argument of \<open>calculateWaitTime\<close>.\<close>

fun created_at_value :: "string option \<Rightarrow> resetTime" where
  "created_at_value None = Undefined"
| "created_at_value (Some str) = Str str"

text \<open>
  The body of the \<open>for\<close> loop of \<open>deleteTweets\<close>, on the state and the two counters;
  \<open>len\<close> is \<open>tweetsToDelete.length\<close>.
\<close>

definition deleteTweets_body ::
  "env \<Rightarrow> nat \<Rightarrow> tweet \<Rightarrow> state \<times> nat \<times> nat \<Rightarrow> state \<times> nat \<times> nat" where
  "deleteTweets_body e len tweet acc =
    (case acc of (s0, deletedCount, failedCount) \<Rightarrow>
      let deleteResponse = v2_deleteTweet e (count is_deleteTweet s0) (tweet_id tweet);
          s1 = emit (Call_deleteTweet (tweet_id tweet)) s0
      in (case deleteResponse of
            Inr ok \<Rightarrow>
              let deleted = deletedCount + 1;
                  progress = Math_round (js_mul (js_div (Fin (of_nat deleted))
                                (Fin (of_nat len))) (Fin 100));
                  s2 = emit (Console (LogProgress deleted len progress)) s1;
                  s3 = emit (Console (LogRateLimit ''Delete API rate limit:'' Of_deleteTweet)) s2
              in (sleep DELETE_INTERVAL s3, deleted, failedCount)
          | Inl error \<Rightarrow>
              let failed = failedCount + 1;
                  s2 = emit (Console (LogError
                         (''Failed to delete tweet '' @ tweet_id tweet @ '':'') error)) s1
              in if error_code error = Some 429
                 then
                   let s3 = emit (Console (LogRateLimit
                              ''Rate limit reached. Rate limit information:''
                              (Of_error error))) s2;
                       s4 = emit (Console (Log ''Waiting for 15 minutes...'')) s3
                   in (sleep (calculateWaitTime (getTime e) (Date_now e s4)
                                (created_at_value (created_at tweet))) s4,
                       deletedCount, failed)
                 else (sleep (js_mul DELETE_INTERVAL (Fin 2)) s2, deletedCount, failed)))"

fun deleteTweets_loop ::
  "env \<Rightarrow> nat \<Rightarrow> tweet list \<Rightarrow> state \<times> nat \<times> nat \<Rightarrow> state \<times> nat \<times> nat" where
  "deleteTweets_loop e len [] acc = acc"
| "deleteTweets_loop e len (tweet # rest) acc =
     deleteTweets_loop e len rest (deleteTweets_body e len tweet acc)"

text \<open>The summary written after the loop.\<close>

definition deleteTweets_summary :: "nat \<Rightarrow> nat \<Rightarrow> state \<Rightarrow> state" where
  "deleteTweets_summary deletedCount failedCount s0 =
    (let s1 = emit (Console (Log ''Deletion process completed'')) s0;
         s2 = emit (Console (LogCount ''Successful:'' deletedCount)) s1;
         s3 = emit (Console (LogCount ''Failed:'' failedCount)) s2
     in if failedCount > 0
        then emit (Console (Log ''Some tweets failed to delete. Please try again later.'')) s3
        else s3)"

text \<open>
  \<open>deleteTweets\<close> returns nothing; the model returns the final state, or \<open>None\<close> when
  the fetch of the posts never returns. An error thrown by the fetch is caught by the
  outer \<open>catch\<close> block. The script calls \<open>deleteTweets\<close> once, after it has left
  with exit code 1 when \<open>USERNAME\<close> is empty; the model starts at the call.
\<close>

definition deleteTweets :: "env \<Rightarrow> state \<Rightarrow> state option" where
  "deleteTweets e s0 =
    (let s1 = emit (Console (Log ''Checking API status...'')) s0;
         status = checkApiStatus e s1;
         apiStatus = fst status;
         s2 = snd status
     in if \<not> apiStatus
        then Some (emit (Console (Log
               ''Cannot proceed due to API rate limit. Please try again later.'')) s2)
        else
          let s3 = emit (Console (Log ''Retrieving tweets...'')) s2
          in (case getAllTweetsAtOnce e s3 of
                None \<Rightarrow> None
              | Some (Inl error, s4) \<Rightarrow>
                  Some (emit (Console (LogError ''An unexpected error occurred:'' error)) s4)
              | Some (Inr tweets, s4) \<Rightarrow>
                  if length tweets \<le> 1
                  then Some (emit (Console (Log ''No tweets found for deletion.'')) s4)
                  else
                    let s5 = emit (Console (LogFound (length tweets))) s4;
                        tweetsToDelete = drop 1 tweets;
                        s6 = emit (Console (Log ''Starting deletion process...'')) s5;
                        done = deleteTweets_loop e (length tweetsToDelete) tweetsToDelete
                                 (s6, 0, 0)
                    in (case done of (s7, deletedCount, failedCount) \<Rightarrow>
                          Some (deleteTweets_summary deletedCount failedCount s7))))"

section \<open>Concrete environments\<close>

text \<open>
  A date parser that knows two dates, ten minutes after and five minutes before the clock
  value \<open>1700000000000\<close> used with it, and answers NaN otherwise.
\<close>

definition getTime0 :: "string \<Rightarrow> jsnum" where
  "getTime0 s =
    (if s = ''2023-11-14T22:23:20.000Z'' then Fin 1700000600000
     else if s = ''2023-11-14T22:08:20.000Z'' then Fin 1699999700000
     else NaN)"

text \<open>
  The initial state of a run, three posts, two thrown errors, and a platform where every
  call succeeds: the timeline holds the three posts, newest first.
\<close>

definition state0 :: state where
  "state0 = \<lparr>USER_ID = None, trace = []\<rparr>"

definition posts3 :: "tweet list" where
  "posts3 =
    [\<lparr>tweet_id = ''3'', created_at = Some ''2023-11-14T22:08:20.000Z''\<rparr>,
     \<lparr>tweet_id = ''2'', created_at = Some ''2023-11-14T22:08:20.000Z''\<rparr>,
     \<lparr>tweet_id = ''1'', created_at = None\<rparr>]"

definition rate_limit_error :: api_error where
  "rate_limit_error =
    \<lparr>is_ApiResponseError = True, rateLimitError = True, error_code = Some 429,
     rateLimit_reset = Num (Fin 1700007200)\<rparr>"

definition server_error :: api_error where
  "server_error =
    \<lparr>is_ApiResponseError = True, rateLimitError = False, error_code = Some 500,
     rateLimit_reset = Undefined\<rparr>"

definition env0 :: env where
  "env0 =
    \<lparr>USERNAME = ''alice'', getTime = getTime0, clock = (\<lambda>k. 1700000000000),
     v2_me = (\<lambda>k. Inr ''42''),
     v2_userByUsername = (\<lambda>k u. Inr (Some ''42'')),
     v2_userTimeline = (\<lambda>k uid m. Inr (Some posts3)),
     v2_deleteTweet = (\<lambda>k i. Inr ())\<rparr>"

text \<open>
  Platforms that differ from \<open>env0\<close> in one operation: the first delete call is answered
  with a 429 error and the second with a server error; \<open>me\<close> or the timeline is
  rate-limited twice before it answers; the user lookup or the preflight timeline fails.
\<close>

definition env_delete_fails :: env where
  "env_delete_fails =
    env0\<lparr>v2_deleteTweet :=
      (\<lambda>k i. if k = 0 then Inl rate_limit_error else if k = 1 then Inl server_error else Inr ())\<rparr>"


definition env_timeline_limited :: env where
  "env_timeline_limited =
    env0\<lparr>v2_userTimeline :=
           (\<lambda>k uid m. if k < 2 then Inl rate_limit_error else Inr (Some posts3))\<rparr>"

definition env_no_user :: env where
  "env_no_user = env0\<lparr>v2_userByUsername := (\<lambda>k u. Inl rate_limit_error)\<rparr>"

definition env_no_timeline :: env where
  "env_no_timeline = env0\<lparr>v2_userTimeline := (\<lambda>k uid m. Inl server_error)\<rparr>"

section \<open>Properties of the wait-time computation\<close>

lemma floor_now_seconds:
  "Math_floor (js_div (Fin (of_int now_ms)) (Fin 1000)) = Fin (currentEpochSeconds now_ms)"
proof -
  have "\<lfloor>(of_int now_ms :: rat) / 1000\<rfloor> = now_ms div 1000"
    using floor_divide_of_int_eq [of now_ms 1000, where ?'a = rat] by simp
  then show ?thesis
    by (simp add: currentEpochSeconds_def)
qed

lemma wait_le_fin: "js_le (js_sub (Fin q) (Fin c)) (Fin 0) = (q - c \<le> 0)"
  by (simp add: js_sub_def)

lemma wait_min_fin:
  "Math_min (js_add (js_mul (js_sub (Fin q) (Fin c)) (Fin 1000)) (Fin 60000)) (Fin 3600000)
     = Fin (min ((q - c) * 1000 + 60000) 3600000)"
  by (simp add: js_sub_def Math_min_def min_def)

lemma calculateWaitTime_finite:
  assumes "truthy r" "resetTimestampSeconds gt r = Some (Fin q)"
  shows "calculateWaitTime gt now_ms r =
     (if q - currentEpochSeconds now_ms \<le> 0 then Fin 900000
      else Fin (min ((q - currentEpochSeconds now_ms) * 1000 + 60000) 3600000))"
proof -
  have ts: "(case r of Str s \<Rightarrow> js_div (gt s) (Fin 1000) | Num n \<Rightarrow> n
             | _ \<Rightarrow> js_div (Fin (of_int now_ms)) (Fin 1000)) = Fin q"
    using assms by (cases r) simp_all
  show ?thesis
    unfolding calculateWaitTime_def Let_def ts floor_now_seconds
      MIN_API_LIMIT_WAIT_def MAX_API_LIMIT_WAIT_def wait_le_fin wait_min_fin
    using assms(1) by simp
qed

lemma calculateWaitTime_infinite:
  assumes "truthy r"
  shows "resetTimestampSeconds gt r = Some NInf \<Longrightarrow>
           calculateWaitTime gt now_ms r = Fin 900000"
    and "resetTimestampSeconds gt r = Some PInf \<Longrightarrow>
           calculateWaitTime gt now_ms r = Fin 3600000"
  using assms
  by (cases r; simp add: calculateWaitTime_def floor_now_seconds js_sub_def Math_min_def
      MIN_API_LIMIT_WAIT_def MAX_API_LIMIT_WAIT_def js_inf_def)+

lemma calculateWaitTime_not_truthy:
  "\<not> truthy r \<Longrightarrow> calculateWaitTime gt now_ms r = Fin 900000"
  by (simp add: calculateWaitTime_def MIN_API_LIMIT_WAIT_def)

text \<open>
  Claim C1. For every input of \<open>calculateWaitTime\<close>: when the reset marker is absent
  (\<open>undefined\<close> or \<open>null\<close>) the result is exactly 900000 ms; otherwise, with
  \<open>waitSeconds\<close> the reset time in seconds minus the current epoch seconds, the result
  is exactly 900000 ms when \<open>waitSeconds \<le> 0\<close> and
  \<open>min (waitSeconds * 1000 + 60000) 3600000\<close> ms when \<open>waitSeconds > 0\<close>. A reset
  time of minus or plus infinity is the limit case of the two branches. The markers
  \<open>0\<close> and the empty string, which the code answers with 900000 before computing
  anything, agree with the claim because the clock is not before the epoch and the
  empty string is not a date; a reset time that is NaN is neither \<open>\<le> 0\<close> nor
  \<open>> 0\<close> and the claim says nothing about it.
\<close>

theorem calculateWaitTime_spec:
  assumes clock: "0 \<le> now_ms" and parse: "gt [] = NaN"
  shows "(resetTimestampSeconds gt r = None \<longrightarrow>
            calculateWaitTime gt now_ms r = Fin 900000)
       \<and> (\<forall>q. resetTimestampSeconds gt r = Some (Fin q) \<longrightarrow>
            (q - currentEpochSeconds now_ms \<le> 0 \<longrightarrow>
               calculateWaitTime gt now_ms r = Fin 900000) \<and>
            (q - currentEpochSeconds now_ms > 0 \<longrightarrow>
               calculateWaitTime gt now_ms r =
                 Fin (min ((q - currentEpochSeconds now_ms) * 1000 + 60000) 3600000)))
       \<and> (resetTimestampSeconds gt r = Some NInf \<longrightarrow>
            calculateWaitTime gt now_ms r = Fin 900000)
       \<and> (resetTimestampSeconds gt r = Some PInf \<longrightarrow>
            calculateWaitTime gt now_ms r = Fin 3600000)"
proof (cases "truthy r")
  case True
  then have "resetTimestampSeconds gt r \<noteq> None"
    by (cases r) simp_all
  with True show ?thesis
    using calculateWaitTime_finite [OF True, of gt _ now_ms]
      calculateWaitTime_infinite [OF True, of gt now_ms]
    by (auto split: if_splits)
next
  case False
  have nonneg: "0 \<le> currentEpochSeconds now_ms"
    using clock by (simp add: currentEpochSeconds_def pos_imp_zdiv_nonneg_iff)
  from False have "calculateWaitTime gt now_ms r = Fin 900000"
    by (rule calculateWaitTime_not_truthy)
  moreover from False parse
  have "resetTimestampSeconds gt r \<in> {None, Some NaN, Some (Fin 0)}"
    by (cases r) auto
  ultimately show ?thesis
    using nonneg by auto
qed

theorem calculateWaitTime_spec_witness:
  "(0::int) \<le> 1700000000000 \<and> getTime0 [] = NaN
   \<and> calculateWaitTime getTime0 1700000000000 Undefined = Fin 900000
   \<and> calculateWaitTime getTime0 1700000000000 (Num (Fin 1699999700)) = Fin 900000
   \<and> calculateWaitTime getTime0 1700000000000 (Num (Fin 1700000600)) = Fin 660000
   \<and> calculateWaitTime getTime0 1700000000000 (Num (Fin 1700007200)) = Fin 3600000
   \<and> calculateWaitTime getTime0 1700000000000 (Str ''2023-11-14T22:23:20.000Z'') = Fin 660000
   \<and> calculateWaitTime getTime0 1700000000000 (Str ''2023-11-14T22:08:20.000Z'') = Fin 900000
   \<and> calculateWaitTime getTime0 1700000000000 (Num NInf) = Fin 900000
   \<and> calculateWaitTime getTime0 1700000000000 (Num PInf) = Fin 3600000"
proof -
  have c: "(0::int) \<le> 1700000000000" by simp
  have p: "getTime0 [] = NaN" by (simp add: getTime0_def)
  note t = calculateWaitTime_spec [of 1700000000000 getTime0, OF c p]
  show ?thesis
    using t [of Undefined] t [of "Num (Fin 1699999700)"] t [of "Num (Fin 1700000600)"]
      t [of "Num (Fin 1700007200)"] t [of "Str ''2023-11-14T22:23:20.000Z''"] t [of "Str ''2023-11-14T22:08:20.000Z''"]
      t [of "Num NInf"] t [of "Num PInf"]
    by (simp add: currentEpochSeconds_def getTime0_def)
qed

text \<open>
  Claim C10. \<open>calculateWaitTime\<close> treats every falsy reset marker as absent: for the
  number 0, for the empty string (and for NaN, \<open>undefined\<close> and \<open>null\<close>) the result
  is the floor of 900000 ms, whatever the clock and the date parser say.
\<close>

theorem calculateWaitTime_falsy:
  "calculateWaitTime gt now_ms (Num (Fin 0)) = Fin 900000
 \<and> calculateWaitTime gt now_ms (Str []) = Fin 900000
 \<and> calculateWaitTime gt now_ms (Num NaN) = Fin 900000
 \<and> calculateWaitTime gt now_ms Undefined = Fin 900000
 \<and> calculateWaitTime gt now_ms Null = Fin 900000"
  by (simp add: calculateWaitTime_def MIN_API_LIMIT_WAIT_def)

lemma wait_for_created_at:
  "calculateWaitTime getTime0 1700000000000 (Str ''2023-11-14T22:08:20.000Z'') = Fin 900000"
  by (simp add: calculateWaitTime_finite getTime0_def currentEpochSeconds_def)

lemma wait_for_future_created_at:
  "calculateWaitTime getTime0 1700000000000 (Str ''2023-11-14T22:23:20.000Z'') = Fin 660000"
  by (simp add: calculateWaitTime_finite getTime0_def currentEpochSeconds_def)

lemma wait_for_reset:
  "calculateWaitTime getTime0 1700000000000 (Num (Fin 1700007200)) = Fin 3600000"
  by (simp add: calculateWaitTime_finite currentEpochSeconds_def)

section \<open>Basic facts about traces and states\<close>

lemma trace_emit [simp]: "trace (emit ev s) = trace s @ [ev]"
  by (simp add: emit_def)

lemma USER_ID_emit [simp]: "USER_ID (emit ev s) = USER_ID s"
  by (simp add: emit_def)

lemma emit_update: "emit ev s = s\<lparr>trace := trace s @ [ev]\<rparr>"
  by (simp add: emit_def)

lemma count_emit [simp]: "count p (emit ev s) = (if p ev then Suc (count p s) else count p s)"
  by (simp add: count_def)

lemma delete_calls_append [simp]:
  "delete_calls (xs @ ys) = delete_calls xs @ delete_calls ys"
  by (induction xs rule: delete_calls.induct) simp_all

lemma sleeps_append [simp]: "sleeps (xs @ ys) = sleeps xs @ sleeps ys"
  by (induction xs rule: sleeps.induct) simp_all

lemma body_success:
  assumes "v2_deleteTweet e (count is_deleteTweet s) (tweet_id tweet) = Inr ok"
  shows "deleteTweets_body e len tweet (s, d, f) =
    (s\<lparr>trace := trace s @
        [Call_deleteTweet (tweet_id tweet),
         Console (LogProgress (d + 1) len
           (Math_round (js_mul (js_div (Fin (of_nat (d + 1))) (Fin (of_nat len))) (Fin 100)))),
         Console (LogRateLimit ''Delete API rate limit:'' Of_deleteTweet),
         Sleep (Fin 5000)]\<rparr>, d + 1, f)"
  using assms
  by (simp add: deleteTweets_body_def sleep_def emit_update DELETE_INTERVAL_def Let_def)

lemma body_429:
  assumes "v2_deleteTweet e (count is_deleteTweet s) (tweet_id tweet) = Inl error"
    and "error_code error = Some 429"
  shows "deleteTweets_body e len tweet (s, d, f) =
    (s\<lparr>trace := trace s @
        [Call_deleteTweet (tweet_id tweet),
         Console (LogError (''Failed to delete tweet '' @ tweet_id tweet @ '':'') error),
         Console (LogRateLimit ''Rate limit reached. Rate limit information:'' (Of_error error)),
         Console (Log ''Waiting for 15 minutes...''),
         Sleep (calculateWaitTime (getTime e) (clock e (length (trace s) + 4))
                  (created_at_value (created_at tweet)))]\<rparr>, d, f + 1)"
  using assms
  by (simp add: deleteTweets_body_def sleep_def emit_update Date_now_def Let_def eval_nat_numeral)

lemma body_other:
  assumes "v2_deleteTweet e (count is_deleteTweet s) (tweet_id tweet) = Inl error"
    and "error_code error \<noteq> Some 429"
  shows "deleteTweets_body e len tweet (s, d, f) =
    (s\<lparr>trace := trace s @
        [Call_deleteTweet (tweet_id tweet),
         Console (LogError (''Failed to delete tweet '' @ tweet_id tweet @ '':'') error),
         Sleep (Fin 10000)]\<rparr>, d, f + 1)"
  using assms
  by (simp add: deleteTweets_body_def sleep_def emit_update DELETE_INTERVAL_def Let_def)

lemma body_cases:
  obtains (success) ok where "v2_deleteTweet e (count is_deleteTweet s) (tweet_id tweet) = Inr ok"
  | (limited) error where "v2_deleteTweet e (count is_deleteTweet s) (tweet_id tweet) = Inl error"
      "error_code error = Some 429"
  | (other) error where "v2_deleteTweet e (count is_deleteTweet s) (tweet_id tweet) = Inl error"
      "error_code error \<noteq> Some 429"
  by (cases "v2_deleteTweet e (count is_deleteTweet s) (tweet_id tweet)") auto

lemma body_counters:
  assumes "deleteTweets_body e len tweet (s, d, f) = (s', d', f')"
  shows "(d' = d + 1 \<and> f' = f) \<or> (d' = d \<and> f' = f + 1)"
  using assms
  by (cases rule: body_cases [of e s tweet])
     (auto simp: body_success body_429 body_other)

lemma body_delete_calls:
  assumes "deleteTweets_body e len tweet (s, d, f) = (s', d', f')"
  shows "delete_calls (trace s') = delete_calls (trace s) @ [tweet_id tweet]"
  using assms
  by (cases rule: body_cases [of e s tweet])
     (auto simp: body_success body_429 body_other)

lemma loop_counters:
  "deleteTweets_loop e len tweets (s, d, f) = (s', d', f') \<Longrightarrow>
     d' + f' = d + f + length tweets"
proof (induction tweets arbitrary: s d f)
  case Nil
  then show ?case by simp
next
  case (Cons tweet rest)
  obtain s1 d1 f1 where b: "deleteTweets_body e len tweet (s, d, f) = (s1, d1, f1)"
    by (cases "deleteTweets_body e len tweet (s, d, f)") auto
  from body_counters [OF b] have "d1 + f1 = d + f + 1" by auto
  moreover from Cons.prems b have "deleteTweets_loop e len rest (s1, d1, f1) = (s', d', f')"
    by simp
  from Cons.IH [OF this] have "d' + f' = d1 + f1 + length rest" .
  ultimately show ?case by simp
qed

lemma loop_delete_calls:
  "deleteTweets_loop e len tweets (s, d, f) = (s', d', f') \<Longrightarrow>
     delete_calls (trace s') = delete_calls (trace s) @ map tweet_id tweets"
proof (induction tweets arbitrary: s d f)
  case Nil
  then show ?case by simp
next
  case (Cons tweet rest)
  obtain s1 d1 f1 where b: "deleteTweets_body e len tweet (s, d, f) = (s1, d1, f1)"
    by (cases "deleteTweets_body e len tweet (s, d, f)") auto
  from Cons.prems b have "deleteTweets_loop e len rest (s1, d1, f1) = (s', d', f')"
    by simp
  from Cons.IH [OF this] body_delete_calls [OF b] show ?case by simp
qed

lemma loop_append:
  "deleteTweets_loop e len (xs @ ys) acc = deleteTweets_loop e len ys (deleteTweets_loop e len xs acc)"
  by (induction xs arbitrary: acc) simp_all

section \<open>The deletion loop\<close>

lemma loop_take_counters:
  assumes "k \<le> length tweets"
    and "deleteTweets_loop e len (take k tweets) (s, 0, 0) = (sk, dk, fk)"
  shows "dk + fk = k"
  using loop_counters [OF assms(2)] assms(1) by simp

lemma loop_split:
  "deleteTweets_loop e len tweets acc =
     deleteTweets_loop e len (drop k tweets) (deleteTweets_loop e len (take k tweets) acc)"
  using loop_append [of e len "take k tweets" "drop k tweets" acc] by simp

text \<open>
  Claim C8. After every successful deletion the loop sleeps the fixed interval of
  5000 ms before it goes on with the remaining candidates: an iteration whose delete call
  succeeds adds the call, two console lines and a sleep of exactly 5000 ms to the trace,
  increments \<open>deletedCount\<close>, and the loop continues with the rest.
\<close>

theorem deleteTweets_loop_success:
  assumes "v2_deleteTweet e (count is_deleteTweet s) (tweet_id tweet) = Inr ok"
  shows "deleteTweets_loop e len (tweet # rest) (s, d, f) =
     deleteTweets_loop e len rest
       (s\<lparr>trace := trace s @
          [Call_deleteTweet (tweet_id tweet),
           Console (LogProgress (d + 1) len
             (Math_round (js_mul (js_div (Fin (of_nat (d + 1))) (Fin (of_nat len))) (Fin 100)))),
           Console (LogRateLimit ''Delete API rate limit:'' Of_deleteTweet),
           Sleep (Fin 5000)]\<rparr>, d + 1, f)
   \<and> sleeps (trace (fst (deleteTweets_body e len tweet (s, d, f)))) =
        sleeps (trace s) @ [Fin 5000]"
  by (simp add: body_success [OF assms])

theorem deleteTweets_loop_success_witness:
  "v2_deleteTweet env0 (count is_deleteTweet state0) ''2'' = Inr ()
   \<and> sleeps (trace (fst (deleteTweets_loop env0 2 (drop 1 posts3) (state0, 0, 0))))
       = [Fin 5000, Fin 5000]
   \<and> snd (deleteTweets_loop env0 2 (drop 1 posts3) (state0, 0, 0)) = (2, 0)"
proof -
  have r: "\<And>k i. v2_deleteTweet env0 k i = Inr ()"
    by (simp add: env0_def)
  note step = deleteTweets_loop_success [where e = env0 and len = 2, OF r]
  show ?thesis
    unfolding posts3_def
    by (simp add: step r state0_def del: deleteTweets_loop.simps(2))
qed

text \<open>
  Claim C6. When a delete call fails with an error whose code is not 429, the
  iteration increments \<open>failedCount\<close>, sleeps exactly 10000 ms (twice the fixed
  interval) and the loop goes on with the remaining candidates: the failed post is not
  tried again and the loop does not stop, so every candidate still gets its one call.
\<close>

theorem deleteTweets_loop_failure:
  assumes "v2_deleteTweet e (count is_deleteTweet s) (tweet_id tweet) = Inl error"
    and "error_code error \<noteq> Some 429"
  shows "deleteTweets_loop e len (tweet # rest) (s, d, f) =
     deleteTweets_loop e len rest
       (s\<lparr>trace := trace s @
          [Call_deleteTweet (tweet_id tweet),
           Console (LogError (''Failed to delete tweet '' @ tweet_id tweet @ '':'') error),
           Sleep (Fin 10000)]\<rparr>, d, f + 1)
   \<and> sleeps (trace (fst (deleteTweets_body e len tweet (s, d, f)))) =
        sleeps (trace s) @ [Fin 10000]
   \<and> delete_calls (trace (fst (deleteTweets_loop e len (tweet # rest) (s, d, f)))) =
        delete_calls (trace s) @ tweet_id tweet # map tweet_id rest"
proof -
  obtain s' d' f' where l: "deleteTweets_loop e len (tweet # rest) (s, d, f) = (s', d', f')"
    by (rule prod_cases3)
  from loop_delete_calls [OF l] l show ?thesis
    by (simp add: body_other [OF assms])
qed

theorem deleteTweets_loop_failure_witness:
  "v2_deleteTweet (env0\<lparr>v2_deleteTweet := (\<lambda>k i. Inl server_error)\<rparr>)
      (count is_deleteTweet state0) ''2'' = Inl server_error
   \<and> error_code server_error \<noteq> Some 429
   \<and> sleeps (trace (fst (deleteTweets_loop (env0\<lparr>v2_deleteTweet := (\<lambda>k i. Inl server_error)\<rparr>)
         2 (drop 1 posts3) (state0, 0, 0)))) = [Fin 10000, Fin 10000]
   \<and> delete_calls (trace (fst (deleteTweets_loop
         (env0\<lparr>v2_deleteTweet := (\<lambda>k i. Inl server_error)\<rparr>)
         2 (drop 1 posts3) (state0, 0, 0)))) = [''2'', ''1'']
   \<and> snd (deleteTweets_loop (env0\<lparr>v2_deleteTweet := (\<lambda>k i. Inl server_error)\<rparr>)
         2 (drop 1 posts3) (state0, 0, 0)) = (0, 2)"
proof -
  have r: "\<And>k i. v2_deleteTweet (env0\<lparr>v2_deleteTweet := (\<lambda>k i. Inl server_error)\<rparr>) k i
             = Inl server_error"
    by simp
  have c: "error_code server_error \<noteq> Some 429"
    by (simp add: server_error_def)
  note step = deleteTweets_loop_failure
    [where e = "env0\<lparr>v2_deleteTweet := (\<lambda>k i. Inl server_error)\<rparr>" and len = 2, OF r c]
  show ?thesis
    unfolding posts3_def
    using c by (simp add: step state0_def del: deleteTweets_loop.simps(2))
qed

text \<open>
  Claim C5. When a delete call fails with an error of code 429, the duration slept
  before the loop moves on is \<open>calculateWaitTime\<close> applied to the \<open>created_at\<close>
  field of the candidate post: to the string itself when the post has one, to
  \<open>undefined\<close> when it has none. The reset time carried by the error does not occur
  in it.
\<close>

theorem deleteTweets_loop_429:
  assumes "v2_deleteTweet e (count is_deleteTweet s) (tweet_id tweet) = Inl error"
    and "error_code error = Some 429"
  shows "deleteTweets_loop e len (tweet # rest) (s, d, f) =
     deleteTweets_loop e len rest
       (s\<lparr>trace := trace s @
          [Call_deleteTweet (tweet_id tweet),
           Console (LogError (''Failed to delete tweet '' @ tweet_id tweet @ '':'') error),
           Console (LogRateLimit ''Rate limit reached. Rate limit information:''
                      (Of_error error)),
           Console (Log ''Waiting for 15 minutes...''),
           Sleep (calculateWaitTime (getTime e) (clock e (length (trace s) + 4))
                    (case created_at tweet of None \<Rightarrow> Undefined | Some str \<Rightarrow> Str str))]\<rparr>,
        d, f + 1)
   \<and> sleeps (trace (fst (deleteTweets_body e len tweet (s, d, f)))) =
        sleeps (trace s) @
          [calculateWaitTime (getTime e) (clock e (length (trace s) + 4))
             (case created_at tweet of None \<Rightarrow> Undefined | Some str \<Rightarrow> Str str)]"
proof -
  have marker: "created_at_value (created_at tweet) =
      (case created_at tweet of None \<Rightarrow> Undefined | Some str \<Rightarrow> Str str)"
    by (cases "created_at tweet") simp_all
  show ?thesis
    unfolding marker [symmetric] by (simp add: body_429 [OF assms])
qed

theorem deleteTweets_loop_429_witness:
  "v2_deleteTweet env_delete_fails (count is_deleteTweet state0) ''2'' = Inl rate_limit_error
   \<and> error_code rate_limit_error = Some 429
   \<and> rateLimit_reset rate_limit_error = Num (Fin 1700007200)
   \<and> calculateWaitTime getTime0 1700000000000 (rateLimit_reset rate_limit_error) = Fin 3600000
   \<and> calculateWaitTime getTime0 1700000000000 Undefined = Fin 900000
   \<and> sleeps (trace (fst (deleteTweets_body env_delete_fails 2
        \<lparr>tweet_id = ''2'', created_at = Some ''2023-11-14T22:23:20.000Z''\<rparr> (state0, 0, 0))))
       = [Fin 660000]
   \<and> sleeps (trace (fst (deleteTweets_body env_delete_fails 2
        \<lparr>tweet_id = ''2'', created_at = Some ''2023-11-14T22:08:20.000Z''\<rparr> (state0, 0, 0))))
       = [Fin 900000]
   \<and> sleeps (trace (fst (deleteTweets_body env_delete_fails 2
        \<lparr>tweet_id = ''2'', created_at = None\<rparr> (state0, 0, 0))))
       = [Fin 900000]"
proof -
  have r: "\<And>c. v2_deleteTweet env_delete_fails (count is_deleteTweet state0)
      (tweet_id \<lparr>tweet_id = ''2'', created_at = c\<rparr>) = Inl rate_limit_error"
    by (simp add: env_delete_fails_def state0_def count_def)
  have c: "error_code rate_limit_error = Some 429"
    by (simp add: rate_limit_error_def)
  have g: "getTime env_delete_fails = getTime0" "clock env_delete_fails = (\<lambda>k. 1700000000000)"
    by (simp_all add: env_delete_fails_def env0_def)
  have u: "calculateWaitTime getTime0 1700000000000 Undefined = Fin 900000"
    by (simp add: calculateWaitTime_not_truthy)
  note t = deleteTweets_loop_429 [OF r c, where len = 2 and rest = "[]" and d = 0 and f = 0]
  from t [of "Some ''2023-11-14T22:23:20.000Z''"] t [of "Some ''2023-11-14T22:08:20.000Z''"]
    t [of None] r [of None] c
  show ?thesis
    by (simp add: g u wait_for_created_at wait_for_future_created_at wait_for_reset
        state0_def rate_limit_error_def)
qed

section \<open>The preflight check and what the fetch leaves untouched\<close>

lemma count_trace_update [simp]:
  "count p (s\<lparr>trace := tr\<rparr>) = length (filter p tr)"
  by (simp add: count_def)

lemma rateLimitWait_update:
  "rateLimitWait e error s =
    s\<lparr>trace := trace s @
      [Console (LogRateLimit ''Rate limit reached. Rate limit information:'' (Of_error error)),
       Console (LogWaiting (Math_floor (js_div (js_div
          (calculateWaitTime (getTime e) (clock e (length (trace s) + 1)) (rateLimit_reset error))
          (Fin 1000)) (Fin 60)))),
       Sleep (calculateWaitTime (getTime e) (clock e (length (trace s) + 1))
                (rateLimit_reset error))]\<rparr>"
  by (simp add: rateLimitWait_def sleep_def emit_update Date_now_def Let_def)

lemma rateLimitWait_simps [simp]:
  "USER_ID (rateLimitWait e error s) = USER_ID s"
  "delete_calls (trace (rateLimitWait e error s)) = delete_calls (trace s)"
  "count is_me (rateLimitWait e error s) = count is_me s"
  "count is_userTimeline (rateLimitWait e error s) = count is_userTimeline s"
  "count is_sleep (rateLimitWait e error s) = Suc (count is_sleep s)"
  "length (trace (rateLimitWait e error s)) = length (trace s) + 3"
  by (simp_all add: rateLimitWait_update count_def)

lemma checkApiStatus_catch_update:
  "checkApiStatus_catch error s =
    (False, s\<lparr>trace := trace s @
       Console (LogError ''Error occurred while checking API status:'' error) #
       (if error_code error = Some 429 then [Console (LogRateLimit [] (Of_error error))]
        else [])\<rparr>)"
  by (simp add: checkApiStatus_catch_def emit_update Let_def)

lemma checkApiStatus_user_error:
  assumes "v2_userByUsername e (count is_userByUsername s) (USERNAME e) = Inl error"
  shows "checkApiStatus e s =
    (False, s\<lparr>trace := trace s @
       [Console (Log ''Checking API status...''),
        Call_userByUsername (USERNAME e),
        Console (LogError ''Error occurred while checking API status:'' error)] @
       (if error_code error = Some 429 then [Console (LogRateLimit [] (Of_error error))]
        else [])\<rparr>)"
  using assms
  by (simp add: checkApiStatus_def checkApiStatus_catch_update emit_def count_def Let_def)

lemma checkApiStatus_timeline_error:
  assumes "v2_userByUsername e (count is_userByUsername s) (USERNAME e) = Inr (Some uid)"
    and "v2_userTimeline e (count is_userTimeline s) uid 5 = Inl error"
  shows "checkApiStatus e s =
    (False, s\<lparr>trace := trace s @
       [Console (Log ''Checking API status...''),
        Call_userByUsername (USERNAME e),
        Console (Log ''[User Information API Rate Limit]''),
        Console (LogRateLimit [] Of_userByUsername),
        Call_userTimeline uid 5,
        Console (LogError ''Error occurred while checking API status:'' error)] @
       (if error_code error = Some 429 then [Console (LogRateLimit [] (Of_error error))]
        else [])\<rparr>)"
  using assms
  by (simp add: checkApiStatus_def checkApiStatus_catch_update emit_def count_def Let_def)

lemma checkApiStatus_False:
  assumes "\<not> fst (checkApiStatus e s)"
  obtains (user) error where
      "v2_userByUsername e (count is_userByUsername s) (USERNAME e) = Inl error"
  | (timeline) uid error where
      "v2_userByUsername e (count is_userByUsername s) (USERNAME e) = Inr (Some uid)"
      "v2_userTimeline e (count is_userTimeline s) uid 5 = Inl error"
  using assms
  by (auto simp: checkApiStatus_def Let_def split: sum.splits option.splits)

lemma checkApiStatus_preserves:
  "delete_calls (trace (snd (checkApiStatus e s))) = delete_calls (trace s)"
  "USER_ID (snd (checkApiStatus e s)) = USER_ID s"
  "sleeps (trace (snd (checkApiStatus e s))) = sleeps (trace s)"
  by (auto simp: checkApiStatus_def checkApiStatus_catch_def Let_def split: sum.splits option.splits)

lemma getUserId_delete_calls:
  assumes "getUserId e s = Some (r, s')"
  shows "delete_calls (trace s') = delete_calls (trace s)"
proof -
  have "delete_calls (trace (snd (r, s'))) = delete_calls (trace s)"
  proof (rule getUserId.raw_induct [where P = "\<lambda>e s y. delete_calls (trace (snd y)) = delete_calls (trace s)", OF _ assms])
    fix f e s0 y
    assume IH: "\<And>e s y. f e s = Some y \<Longrightarrow> delete_calls (trace (snd y)) = delete_calls (trace s)"
      and body: "(if USER_ID s0 \<noteq> None \<and> USER_ID s0 \<noteq> Some []
           then Some (Inr (the (USER_ID s0)), s0)
           else let response = v2_me e (count is_me s0); s1 = emit Call_me s0
                in case response of
                     Inl error \<Rightarrow> if isRateLimitError error then f e (rateLimitWait e error s1)
                                  else Some (Inl error, s1)
                   | Inr uid \<Rightarrow> Some (Inr uid, s1)) = Some y"
    show "delete_calls (trace (snd y)) = delete_calls (trace s0)"
      using body IH [of e "rateLimitWait e _ (emit Call_me s0)" y]
      by (auto simp: Let_def split: if_splits sum.splits)
  qed
  then show ?thesis by simp
qed


lemma getAllTweetsAtOnce_try_delete_calls:
  assumes "getAllTweetsAtOnce_try e s = Some (r, s')"
  shows "delete_calls (trace s') = delete_calls (trace s)"
proof (cases "getUserId e s")
  case None
  with assms show ?thesis by (simp add: getAllTweetsAtOnce_try_def)
next
  case (Some y)
  obtain r1 s1 where y: "y = (r1, s1)" by (cases y)
  from Some y have "delete_calls (trace s1) = delete_calls (trace s)"
    by (simp add: getUserId_delete_calls)
  with assms Some y show ?thesis
    by (auto simp: getAllTweetsAtOnce_try_def Let_def split: sum.splits option.splits)
qed

lemma getAllTweetsAtOnce_delete_calls:
  assumes "getAllTweetsAtOnce e s = Some (r, s')"
  shows "delete_calls (trace s') = delete_calls (trace s)"
proof -
  have "delete_calls (trace (snd (r, s'))) = delete_calls (trace s)"
  proof (rule getAllTweetsAtOnce.raw_induct [where P = "\<lambda>e s y. delete_calls (trace (snd y)) = delete_calls (trace s)", OF _ assms])
    fix f e s0 y
    assume IH: "\<And>e s y. f e s = Some y \<Longrightarrow> delete_calls (trace (snd y)) = delete_calls (trace s)"
      and body: "(case getAllTweetsAtOnce_try e s0 of
           None \<Rightarrow> None
         | Some (Inl error, s1) \<Rightarrow>
             if isRateLimitError error then f e (rateLimitWait e error s1)
             else Some (Inl error, s1)
         | Some (Inr tweets, s1) \<Rightarrow> Some (Inr tweets, s1)) = Some y"
    show "delete_calls (trace (snd y)) = delete_calls (trace s0)"
    proof (cases "getAllTweetsAtOnce_try e s0")
      case None
      with body show ?thesis by simp
    next
      case (Some t)
      obtain r1 s1 where t: "t = (r1, s1)" by (cases t)
      from Some t have s1: "delete_calls (trace s1) = delete_calls (trace s0)"
        by (simp add: getAllTweetsAtOnce_try_delete_calls)
      show ?thesis
        using body Some t s1 IH [of e "rateLimitWait e _ s1" y]
        by (auto split: sum.splits if_splits)
    qed
  qed
  then show ?thesis by simp
qed

section \<open>Retries of the identity and timeline calls\<close>


lemma getUserId_returns:
  assumes "USER_ID s = None \<or> USER_ID s = Some []"
    and "v2_me e (count is_me s) = r" and "\<forall>error. r = Inl error \<longrightarrow> \<not> isRateLimitError error"
  shows "getUserId e s = Some (r, emit Call_me s)"
  by (subst getUserId.simps) (use assms in \<open>auto simp: Let_def split: sum.splits\<close>)

lemma sleeps_rateLimitWait:
  "sleeps (trace (rateLimitWait e error s)) =
     sleeps (trace s) @
       [calculateWaitTime (getTime e) (clock e (length (trace s) + 1)) (rateLimit_reset error)]"
  by (simp add: rateLimitWait_update)



lemma getAllTweetsAtOnce_try_timeline:
  assumes "getUserId e s = Some (Inr uid, s1)"
    and "v2_userTimeline e (count is_userTimeline s1) uid 100 = r"
  shows "getAllTweetsAtOnce_try e s =
    Some (case r of Inl error \<Rightarrow> Inl error
          | Inr page \<Rightarrow> Inr (case page of None \<Rightarrow> [] | Some tweets \<Rightarrow> tweets),
          emit (Call_userTimeline uid 100) s1)"
  using assms
  by (auto simp: getAllTweetsAtOnce_try_def Let_def split: sum.splits option.splits)

lemma getAllTweetsAtOnce_rate_limited:
  assumes "getUserId e s = Some (Inr uid, s1)"
    and "v2_userTimeline e (count is_userTimeline s1) uid 100 = Inl error"
    and "isRateLimitError error"
  shows "getAllTweetsAtOnce e s =
    getAllTweetsAtOnce e (rateLimitWait e error (emit (Call_userTimeline uid 100) s1))"
  by (subst getAllTweetsAtOnce.simps)
     (simp add: getAllTweetsAtOnce_try_timeline [OF assms(1,2)] assms(3))

lemma getAllTweetsAtOnce_returns:
  assumes "getUserId e s = Some (Inr uid, s1)"
    and "v2_userTimeline e (count is_userTimeline s1) uid 100 = r"
    and "\<forall>error. r = Inl error \<longrightarrow> \<not> isRateLimitError error"
  shows "getAllTweetsAtOnce e s =
    Some (case r of Inl error \<Rightarrow> Inl error
          | Inr page \<Rightarrow> Inr (case page of None \<Rightarrow> [] | Some tweets \<Rightarrow> tweets),
          emit (Call_userTimeline uid 100) s1)"
  by (subst getAllTweetsAtOnce.simps)
     (use assms(3) in \<open>auto simp: getAllTweetsAtOnce_try_timeline [OF assms(1,2)]
        split: sum.splits\<close>)


lemma getAllTweetsAtOnce_retries:
  assumes "USER_ID s = None \<or> USER_ID s = Some []"
    and "\<forall>i\<le>n. v2_me e (count is_me s + i) = Inr (uid i)"
    and "\<forall>i<n. \<exists>error. v2_userTimeline e (count is_userTimeline s + i) (uid i) 100 = Inl error
            \<and> isRateLimitError error"
    and "v2_userTimeline e (count is_userTimeline s + n) (uid n) 100 = r"
    and "\<forall>error. r = Inl error \<longrightarrow> \<not> isRateLimitError error"
  shows "\<exists>s'. getAllTweetsAtOnce e s =
             Some (case r of Inl error \<Rightarrow> Inl error
                   | Inr page \<Rightarrow> Inr (case page of None \<Rightarrow> [] | Some tweets \<Rightarrow> tweets), s')
           \<and> USER_ID s' = USER_ID s
           \<and> count is_me s' = count is_me s + n + 1
           \<and> count is_userTimeline s' = count is_userTimeline s + n + 1
           \<and> length (trace s') = length (trace s) + 5 * n + 2
           \<and> sleeps (trace s') = sleeps (trace s) @
                map (\<lambda>i. calculateWaitTime (getTime e) (clock e (length (trace s) + 5 * i + 3))
                       (rateLimit_reset (projl
                          (v2_userTimeline e (count is_userTimeline s + i) (uid i) 100)))) [0..<n]"
  using assms
proof (induction n arbitrary: s uid)
  case 0
  have me: "getUserId e s = Some (Inr (uid 0), emit Call_me s)"
    using "0.prems"(1,2) by (simp add: getUserId_returns)
  have "getAllTweetsAtOnce e s =
    Some (case r of Inl error \<Rightarrow> Inl error
          | Inr page \<Rightarrow> Inr (case page of None \<Rightarrow> [] | Some tweets \<Rightarrow> tweets),
          emit (Call_userTimeline (uid 0) 100) (emit Call_me s))"
    using "0.prems"(4,5) by (intro getAllTweetsAtOnce_returns [OF me]) simp_all
  then show ?case by simp
next
  case (Suc n)
  from Suc.prems(2) have "v2_me e (count is_me s) = Inr (uid 0)"
    by force
  with Suc.prems(1) have me: "getUserId e s = Some (Inr (uid 0), emit Call_me s)"
    by (simp add: getUserId_returns)
  from Suc.prems(3) obtain error where
    err: "v2_userTimeline e (count is_userTimeline s) (uid 0) 100 = Inl error"
      "isRateLimitError error"
    by force
  define s1 where "s1 = rateLimitWait e error (emit (Call_userTimeline (uid 0) 100) (emit Call_me s))"
  have step: "getAllTweetsAtOnce e s = getAllTweetsAtOnce e s1"
    unfolding s1_def using err by (intro getAllTweetsAtOnce_rate_limited [OF me]) simp_all
  have s1: "USER_ID s1 = USER_ID s" "count is_me s1 = Suc (count is_me s)"
    "count is_userTimeline s1 = Suc (count is_userTimeline s)"
    "length (trace s1) = length (trace s) + 5"
    "sleeps (trace s1) = sleeps (trace s) @
       [calculateWaitTime (getTime e) (clock e (length (trace s) + 3)) (rateLimit_reset error)]"
    by (simp_all add: s1_def sleeps_rateLimitWait eval_nat_numeral)
  have "\<exists>s'. getAllTweetsAtOnce e s1 =
             Some (case r of Inl error \<Rightarrow> Inl error
                   | Inr page \<Rightarrow> Inr (case page of None \<Rightarrow> [] | Some tweets \<Rightarrow> tweets), s')
           \<and> USER_ID s' = USER_ID s1
           \<and> count is_me s' = count is_me s1 + n + 1
           \<and> count is_userTimeline s' = count is_userTimeline s1 + n + 1
           \<and> length (trace s') = length (trace s1) + 5 * n + 2
           \<and> sleeps (trace s') = sleeps (trace s1) @
                map (\<lambda>i. calculateWaitTime (getTime e) (clock e (length (trace s1) + 5 * i + 3))
                       (rateLimit_reset (projl
                          (v2_userTimeline e (count is_userTimeline s1 + i) (uid (Suc i)) 100)))) [0..<n]"
  proof (rule Suc.IH)
    show "USER_ID s1 = None \<or> USER_ID s1 = Some []"
      using Suc.prems(1) s1 by simp
    show "\<forall>i\<le>n. v2_me e (count is_me s1 + i) = Inr (uid (Suc i))"
      using Suc.prems(2) s1 by auto
    show "\<forall>i<n. \<exists>error. v2_userTimeline e (count is_userTimeline s1 + i) (uid (Suc i)) 100 = Inl error
            \<and> isRateLimitError error"
      using Suc.prems(3) s1 by auto
    show "v2_userTimeline e (count is_userTimeline s1 + n) (uid (Suc n)) 100 = r"
      using Suc.prems(4) s1 by simp
    show "\<forall>error. r = Inl error \<longrightarrow> \<not> isRateLimitError error"
      by (rule Suc.prems(5))
  qed
  then obtain s' where s': "getAllTweetsAtOnce e s1 =
             Some (case r of Inl error \<Rightarrow> Inl error
                   | Inr page \<Rightarrow> Inr (case page of None \<Rightarrow> [] | Some tweets \<Rightarrow> tweets), s')"
    "USER_ID s' = USER_ID s1" "count is_me s' = count is_me s1 + n + 1"
    "count is_userTimeline s' = count is_userTimeline s1 + n + 1"
    "length (trace s') = length (trace s1) + 5 * n + 2"
    "sleeps (trace s') = sleeps (trace s1) @
                map (\<lambda>i. calculateWaitTime (getTime e) (clock e (length (trace s1) + 5 * i + 3))
                       (rateLimit_reset (projl
                          (v2_userTimeline e (count is_userTimeline s1 + i) (uid (Suc i)) 100)))) [0..<n]"
    by blast
  have idx: "\<And>i. length (trace s1) + 5 * i + 3 = length (trace s) + 5 * Suc i + 3"
    "\<And>i. count is_userTimeline s1 + i = count is_userTimeline s + Suc i"
    using s1 by simp_all
  have "sleeps (trace s') = sleeps (trace s) @
                map (\<lambda>i. calculateWaitTime (getTime e) (clock e (length (trace s) + 5 * i + 3))
                       (rateLimit_reset (projl
                          (v2_userTimeline e (count is_userTimeline s + i) (uid i) 100)))) [0..<Suc n]"
    unfolding s'(6) s1(5) idx map_upt_Suc using err(1) by simp
  with step s' s1 show ?case by simp
qed


lemma getUserId_keeps_USER_ID:
  assumes "getUserId e s = Some (r, s')"
  shows "USER_ID s' = USER_ID s"
proof -
  have "USER_ID (snd (r, s')) = USER_ID s"
  proof (rule getUserId.raw_induct [where P = "\<lambda>e s y. USER_ID (snd y) = USER_ID s", OF _ assms])
    fix f e s0 y
    assume IH: "\<And>e s y. f e s = Some y \<Longrightarrow> USER_ID (snd y) = USER_ID s"
      and body: "(if USER_ID s0 \<noteq> None \<and> USER_ID s0 \<noteq> Some []
           then Some (Inr (the (USER_ID s0)), s0)
           else let response = v2_me e (count is_me s0); s1 = emit Call_me s0
                in case response of
                     Inl error \<Rightarrow> if isRateLimitError error then f e (rateLimitWait e error s1)
                                  else Some (Inl error, s1)
                   | Inr uid \<Rightarrow> Some (Inr uid, s1)) = Some y"
    show "USER_ID (snd y) = USER_ID s0"
      using body IH [of e "rateLimitWait e _ (emit Call_me s0)" y]
      by (auto simp: Let_def split: if_splits sum.splits)
  qed
  then show ?thesis by simp
qed

lemma rate_limit_error_is: "isRateLimitError rate_limit_error"
  by (simp add: isRateLimitError_def rate_limit_error_def)



text \<open>
  Claim C3. (the code at a concrete input). The claim says that \<open>getUserId\<close>
  stores the resolved id, so that later calls return it without a further API call. The
  code never assigns \<open>USER_ID\<close>: after a successful call the variable is still
  empty, the next call asks the platform again and returns whatever it answers then, and a
  fetch of the timeline that is rate-limited twice asks three times.
\<close>

theorem getUserId_cache_never_written:
  "getUserId (env0\<lparr>v2_me := (\<lambda>k. if k = 0 then Inr ''42'' else Inr ''43'')\<rparr>) state0
     = Some (Inr ''42'', emit Call_me state0)
 \<and> USER_ID (emit Call_me state0) = None
 \<and> getUserId (env0\<lparr>v2_me := (\<lambda>k. if k = 0 then Inr ''42'' else Inr ''43'')\<rparr>)
       (emit Call_me state0)
     = Some (Inr ''43'', emit Call_me (emit Call_me state0))
 \<and> (\<exists>s'. getAllTweetsAtOnce env_timeline_limited state0 = Some (Inr posts3, s')
        \<and> USER_ID s' = None \<and> count is_me s' = 3)"
proof -
  let ?e = "env0\<lparr>v2_me := (\<lambda>k. if k = 0 then Inr ''42'' else Inr ''43'')\<rparr>"
  have nc: "USER_ID state0 = None \<or> USER_ID state0 = Some []"
    "USER_ID (emit Call_me state0) = None \<or> USER_ID (emit Call_me state0) = Some []"
    by (simp_all add: state0_def)
  have first: "getUserId ?e state0 = Some (Inr ''42'', emit Call_me state0)"
    by (rule getUserId_returns [OF nc(1)]) (simp_all add: state0_def count_def)
  have second: "getUserId ?e (emit Call_me state0)
     = Some (Inr ''43'', emit Call_me (emit Call_me state0))"
    by (rule getUserId_returns [OF nc(2)]) (simp_all add: state0_def count_def)
  have z: "count is_me state0 = 0" "count is_userTimeline state0 = 0"
    by (simp_all add: state0_def count_def)
  have u: "USER_ID state0 = None"
    by (simp add: state0_def)
  have "\<exists>s'. getAllTweetsAtOnce env_timeline_limited state0 =
             Some (case (Inr (Some posts3) :: api_error + tweet list option) of
                     Inl err \<Rightarrow> Inl err
                   | Inr page \<Rightarrow> Inr (case page of None \<Rightarrow> [] | Some tweets \<Rightarrow> tweets), s')
           \<and> USER_ID s' = USER_ID state0
           \<and> count is_me s' = count is_me state0 + 2 + 1
           \<and> count is_userTimeline s' = count is_userTimeline state0 + 2 + 1
           \<and> length (trace s') = length (trace state0) + 5 * 2 + 2
           \<and> sleeps (trace s') = sleeps (trace state0) @
                map (\<lambda>i. calculateWaitTime (getTime env_timeline_limited)
                       (clock env_timeline_limited (length (trace state0) + 5 * i + 3))
                       (rateLimit_reset (projl
                          (v2_userTimeline env_timeline_limited
                             (count is_userTimeline state0 + i) ((\<lambda>i. ''42'') i) 100)))) [0..<2]"
    by (rule getAllTweetsAtOnce_retries [OF nc(1)])
       (simp_all add: z env_timeline_limited_def env0_def rate_limit_error_is)
  then have "\<exists>s'. getAllTweetsAtOnce env_timeline_limited state0 = Some (Inr posts3, s')
        \<and> USER_ID s' = None \<and> count is_me s' = 3"
    by (auto simp: z u)
  with first second u show ?thesis
    by simp
qed

section \<open>The run as a whole\<close>

lemma summary_delete_calls [simp]:
  "delete_calls (trace (deleteTweets_summary d f s)) = delete_calls (trace s)"
  by (simp add: deleteTweets_summary_def Let_def)

lemma deleteTweets_fetched:
  assumes "checkApiStatus e (emit (Console (Log ''Checking API status...'')) s0) = (True, s2)"
    and "getAllTweetsAtOnce e (emit (Console (Log ''Retrieving tweets...'')) s2)
           = Some (Inr tweets, s4)"
  shows "deleteTweets e s0 =
    (if length tweets \<le> 1
     then Some (emit (Console (Log ''No tweets found for deletion.'')) s4)
     else case deleteTweets_loop e (length tweets - 1) (drop 1 tweets)
                 (emit (Console (Log ''Starting deletion process...''))
                    (emit (Console (LogFound (length tweets))) s4), 0, 0) of
            (s7, deletedCount, failedCount) \<Rightarrow>
              Some (deleteTweets_summary deletedCount failedCount s7))"
  using assms by (simp add: deleteTweets_def Let_def)

lemma deleteTweets_delete_calls_aux:
  assumes pre: "checkApiStatus e (emit (Console (Log ''Checking API status...'')) s0) = (True, s2)"
    and fetch: "getAllTweetsAtOnce e (emit (Console (Log ''Retrieving tweets...'')) s2)
           = Some (Inr tweets, s4)"
  shows "\<exists>s'. deleteTweets e s0 = Some s' \<and>
     delete_calls (trace s') = delete_calls (trace s0) @ map tweet_id (drop 1 tweets)"
proof -
  have s2: "delete_calls (trace s2) = delete_calls (trace s0)"
    using checkApiStatus_preserves(1) [of e "emit (Console (Log ''Checking API status...'')) s0"]
    by (simp add: pre)
  have s4: "delete_calls (trace s4) = delete_calls (trace s0)"
    using getAllTweetsAtOnce_delete_calls [OF fetch] s2 by simp
  show ?thesis
  proof (cases "length tweets \<le> 1")
    case True
    then have "drop 1 tweets = []" by simp
    with True s4 show ?thesis
      by (simp add: deleteTweets_fetched [OF pre fetch])
  next
    case False
    obtain s7 d f where loop: "deleteTweets_loop e (length tweets - 1) (drop 1 tweets)
                 (emit (Console (Log ''Starting deletion process...''))
                    (emit (Console (LogFound (length tweets))) s4), 0, 0) = (s7, d, f)"
      by (rule prod_cases3)
    from loop_delete_calls [OF loop] s4
    have "delete_calls (trace s7) = delete_calls (trace s0) @ map tweet_id (drop 1 tweets)"
      by simp
    with False loop show ?thesis
      by (simp add: deleteTweets_fetched [OF pre fetch])
  qed
qed

lemma deleteTweets_summary_aux:
  assumes pre: "checkApiStatus e (emit (Console (Log ''Checking API status...'')) s0) = (True, s2)"
    and fetch: "getAllTweetsAtOnce e (emit (Console (Log ''Retrieving tweets...'')) s2)
           = Some (Inr tweets, s4)"
    and many: "1 < length tweets"
  shows "\<exists>s7 d f. deleteTweets_loop e (length tweets - 1) (drop 1 tweets)
                 (emit (Console (Log ''Starting deletion process...''))
                    (emit (Console (LogFound (length tweets))) s4), 0, 0) = (s7, d, f)
           \<and> deleteTweets e s0 = Some (deleteTweets_summary d f s7)
           \<and> d + f = length tweets - 1"
proof -
  obtain s7 d f where loop: "deleteTweets_loop e (length tweets - 1) (drop 1 tweets)
                 (emit (Console (Log ''Starting deletion process...''))
                    (emit (Console (LogFound (length tweets))) s4), 0, 0) = (s7, d, f)"
    by (rule prod_cases3)
  from loop_counters [OF loop] have "d + f = length tweets - 1" by simp
  with many loop show ?thesis
    by (simp add: deleteTweets_fetched [OF pre fetch])
qed

lemma env0_preflight:
  "checkApiStatus env0 (emit (Console (Log ''Checking API status...'')) state0) =
    (True, snd (checkApiStatus env0 (emit (Console (Log ''Checking API status...'')) state0)))"
  by (simp add: checkApiStatus_def env0_def Let_def)

lemma env0_fetch:
  "\<exists>s4. getAllTweetsAtOnce env0 (emit (Console (Log ''Retrieving tweets...''))
       (snd (checkApiStatus env0 (emit (Console (Log ''Checking API status...'')) state0))))
     = Some (Inr posts3, s4)"
proof -
  let ?s = "emit (Console (Log ''Retrieving tweets...''))
       (snd (checkApiStatus env0 (emit (Console (Log ''Checking API status...'')) state0)))"
  have nc: "USER_ID ?s = None \<or> USER_ID ?s = Some []"
    by (simp add: checkApiStatus_preserves state0_def)
  have me: "getUserId env0 ?s = Some (Inr ''42'', emit Call_me ?s)"
    by (rule getUserId_returns [OF nc]) (simp_all add: env0_def)
  have "getAllTweetsAtOnce env0 ?s =
     Some (case (Inr (Some posts3) :: api_error + tweet list option) of Inl error \<Rightarrow> Inl error
          | Inr page \<Rightarrow> Inr (case page of None \<Rightarrow> [] | Some tweets \<Rightarrow> tweets),
          emit (Call_userTimeline ''42'' 100) (emit Call_me ?s))"
    by (rule getAllTweetsAtOnce_returns [OF me]) (simp_all add: env0_def)
  then show ?thesis by simp
qed

text \<open>
  Claim C2. For every fetched post list: when its length is 0 or 1 the run makes no delete
  call; when its length is \<open>N > 1\<close> it makes exactly \<open>N - 1\<close> delete calls, the
  \<open>i\<close>-th of them against \<open>posts[i + 1]\<close>, so one per candidate and in the original
  order; \<open>posts[0]\<close> is not among the candidates, and no call carries its id when the
  ids of the posts are distinct.
\<close>

theorem deleteTweets_spares_first:
  assumes pre: "checkApiStatus e (emit (Console (Log ''Checking API status...'')) s0) = (True, s2)"
    and fetch: "getAllTweetsAtOnce e (emit (Console (Log ''Retrieving tweets...'')) s2)
           = Some (Inr tweets, s4)"
  shows "\<exists>s' calls. deleteTweets e s0 = Some s'
     \<and> delete_calls (trace s') = delete_calls (trace s0) @ calls
     \<and> calls = map tweet_id (drop 1 tweets)
     \<and> (length tweets \<le> 1 \<longrightarrow> calls = [])
     \<and> (1 < length tweets \<longrightarrow> length calls = length tweets - 1
          \<and> (\<forall>i<length tweets - 1. calls ! i = tweet_id (tweets ! (i + 1))))
     \<and> (tweets \<noteq> [] \<longrightarrow> distinct (map tweet_id tweets) \<longrightarrow> tweet_id (tweets ! 0) \<notin> set calls)"
proof -
  from deleteTweets_delete_calls_aux [OF pre fetch] obtain s' where
    s': "deleteTweets e s0 = Some s'"
      "delete_calls (trace s') = delete_calls (trace s0) @ map tweet_id (drop 1 tweets)"
    by blast
  have first: "tweet_id (tweets ! 0) \<notin> set (map tweet_id (drop 1 tweets))"
    if "tweets \<noteq> []" "distinct (map tweet_id tweets)"
    using that by (cases tweets) auto
  have nth: "map tweet_id (drop 1 tweets) ! i = tweet_id (tweets ! (i + 1))"
    if "i < length tweets - 1" for i
    using that by simp
  from s' first nth show ?thesis by auto
qed

theorem deleteTweets_spares_first_witness:
  "fst (checkApiStatus env0 (emit (Console (Log ''Checking API status...'')) state0))
   \<and> (\<exists>s4. getAllTweetsAtOnce env0 (emit (Console (Log ''Retrieving tweets...''))
          (snd (checkApiStatus env0 (emit (Console (Log ''Checking API status...'')) state0))))
        = Some (Inr posts3, s4))
   \<and> (\<exists>s'. deleteTweets env0 state0 = Some s' \<and> delete_calls (trace s') = [''2'', ''1''])"
proof -
  from env0_fetch obtain s4 where
    fetch: "getAllTweetsAtOnce env0 (emit (Console (Log ''Retrieving tweets...''))
       (snd (checkApiStatus env0 (emit (Console (Log ''Checking API status...'')) state0))))
     = Some (Inr posts3, s4)"
    by blast
  from deleteTweets_spares_first [OF env0_preflight fetch]
  have "\<exists>s'. deleteTweets env0 state0 = Some s' \<and> delete_calls (trace s') = [''2'', ''1'']"
    by (auto simp: posts3_def state0_def)
  with env0_fetch env0_preflight show ?thesis
    by (metis fst_conv)
qed

text \<open>
  Claim C7. When the preflight check throws, in the user lookup or in the fetch of
  the small timeline page, the run ends there: the trace holds the one or two preflight
  calls, the report of the error (with its rate-limit information when its code is 429)
  and the closing line; there is no delete call, no sleep and no second attempt.
\<close>

theorem deleteTweets_preflight_error:
  "(v2_userByUsername e (count is_userByUsername s0) (USERNAME e) = Inl error \<longrightarrow>
      deleteTweets e s0 =
        Some (s0\<lparr>trace := trace s0 @
          [Console (Log ''Checking API status...''),
           Console (Log ''Checking API status...''),
           Call_userByUsername (USERNAME e),
           Console (LogError ''Error occurred while checking API status:'' error)] @
          (if error_code error = Some 429 then [Console (LogRateLimit [] (Of_error error))]
           else []) @
          [Console (Log ''Cannot proceed due to API rate limit. Please try again later.'')]\<rparr>))
 \<and> (v2_userByUsername e (count is_userByUsername s0) (USERNAME e) = Inr (Some uid) \<longrightarrow>
    v2_userTimeline e (count is_userTimeline s0) uid 5 = Inl error \<longrightarrow>
      deleteTweets e s0 =
        Some (s0\<lparr>trace := trace s0 @
          [Console (Log ''Checking API status...''),
           Console (Log ''Checking API status...''),
           Call_userByUsername (USERNAME e),
           Console (Log ''[User Information API Rate Limit]''),
           Console (LogRateLimit [] Of_userByUsername),
           Call_userTimeline uid 5,
           Console (LogError ''Error occurred while checking API status:'' error)] @
          (if error_code error = Some 429 then [Console (LogRateLimit [] (Of_error error))]
           else []) @
          [Console (Log ''Cannot proceed due to API rate limit. Please try again later.'')]\<rparr>))
 \<and> (\<not> fst (checkApiStatus e (emit (Console (Log ''Checking API status...'')) s0)) \<longrightarrow>
      (\<exists>s'. deleteTweets e s0 = Some s'
         \<and> delete_calls (trace s') = delete_calls (trace s0)
         \<and> sleeps (trace s') = sleeps (trace s0)
         \<and> count is_userByUsername s' = count is_userByUsername s0 + 1
         \<and> count is_userTimeline s' \<le> count is_userTimeline s0 + 1
         \<and> count is_me s' = count is_me s0))"
proof (intro conjI impI)
  let ?s1 = "emit (Console (Log ''Checking API status...'')) s0"
  assume a: "v2_userByUsername e (count is_userByUsername s0) (USERNAME e) = Inl error"
  then have "v2_userByUsername e (count is_userByUsername ?s1) (USERNAME e) = Inl error"
    by simp
  from checkApiStatus_user_error [OF this]
  show "deleteTweets e s0 =
      Some (s0\<lparr>trace := trace s0 @
        [Console (Log ''Checking API status...''),
         Console (Log ''Checking API status...''),
         Call_userByUsername (USERNAME e),
         Console (LogError ''Error occurred while checking API status:'' error)] @
        (if error_code error = Some 429 then [Console (LogRateLimit [] (Of_error error))]
         else []) @
        [Console (Log ''Cannot proceed due to API rate limit. Please try again later.'')]\<rparr>)"
    by (simp add: deleteTweets_def Let_def emit_def)
next
  let ?s1 = "emit (Console (Log ''Checking API status...'')) s0"
  assume a: "v2_userByUsername e (count is_userByUsername s0) (USERNAME e) = Inr (Some uid)"
    "v2_userTimeline e (count is_userTimeline s0) uid 5 = Inl error"
  then have "v2_userByUsername e (count is_userByUsername ?s1) (USERNAME e) = Inr (Some uid)"
    "v2_userTimeline e (count is_userTimeline ?s1) uid 5 = Inl error"
    by simp_all
  from checkApiStatus_timeline_error [OF this]
  show "deleteTweets e s0 =
      Some (s0\<lparr>trace := trace s0 @
        [Console (Log ''Checking API status...''),
         Console (Log ''Checking API status...''),
         Call_userByUsername (USERNAME e),
         Console (Log ''[User Information API Rate Limit]''),
         Console (LogRateLimit [] Of_userByUsername),
         Call_userTimeline uid 5,
         Console (LogError ''Error occurred while checking API status:'' error)] @
        (if error_code error = Some 429 then [Console (LogRateLimit [] (Of_error error))]
         else []) @
        [Console (Log ''Cannot proceed due to API rate limit. Please try again later.'')]\<rparr>)"
    by (simp add: deleteTweets_def Let_def emit_def)
next
  let ?s1 = "emit (Console (Log ''Checking API status...'')) s0"
  assume f: "\<not> fst (checkApiStatus e ?s1)"
  then show "\<exists>s'. deleteTweets e s0 = Some s'
       \<and> delete_calls (trace s') = delete_calls (trace s0)
       \<and> sleeps (trace s') = sleeps (trace s0)
       \<and> count is_userByUsername s' = count is_userByUsername s0 + 1
       \<and> count is_userTimeline s' \<le> count is_userTimeline s0 + 1
       \<and> count is_me s' = count is_me s0"
  proof (cases rule: checkApiStatus_False)
    case (user error)
    from checkApiStatus_user_error [OF this] show ?thesis
      by (simp add: deleteTweets_def Let_def emit_def count_def)
  next
    case (timeline uid error)
    from checkApiStatus_timeline_error [OF this] show ?thesis
      by (simp add: deleteTweets_def Let_def emit_def count_def)
  qed
qed

theorem deleteTweets_preflight_error_witness:
  "v2_userByUsername env_no_user (count is_userByUsername state0) (USERNAME env_no_user)
     = Inl rate_limit_error
   \<and> deleteTweets env_no_user state0 =
       Some \<lparr>USER_ID = None, trace =
          [Console (Log ''Checking API status...''),
           Console (Log ''Checking API status...''),
           Call_userByUsername ''alice'',
           Console (LogError ''Error occurred while checking API status:'' rate_limit_error),
           Console (LogRateLimit [] (Of_error rate_limit_error)),
           Console (Log ''Cannot proceed due to API rate limit. Please try again later.'')]\<rparr>
   \<and> v2_userByUsername env_no_timeline (count is_userByUsername state0)
        (USERNAME env_no_timeline) = Inr (Some ''42'')
   \<and> v2_userTimeline env_no_timeline (count is_userTimeline state0) ''42'' 5 = Inl server_error
   \<and> deleteTweets env_no_timeline state0 =
       Some \<lparr>USER_ID = None, trace =
          [Console (Log ''Checking API status...''),
           Console (Log ''Checking API status...''),
           Call_userByUsername ''alice'',
           Console (Log ''[User Information API Rate Limit]''),
           Console (LogRateLimit [] Of_userByUsername),
           Call_userTimeline ''42'' 5,
           Console (LogError ''Error occurred while checking API status:'' server_error),
           Console (Log ''Cannot proceed due to API rate limit. Please try again later.'')]\<rparr>"
proof -
  have u: "v2_userByUsername env_no_user (count is_userByUsername state0) (USERNAME env_no_user)
     = Inl rate_limit_error"
    by (simp add: env_no_user_def)
  have t: "v2_userByUsername env_no_timeline (count is_userByUsername state0)
        (USERNAME env_no_timeline) = Inr (Some ''42'')"
    "v2_userTimeline env_no_timeline (count is_userTimeline state0) ''42'' 5 = Inl server_error"
    by (simp_all add: env_no_timeline_def env0_def)
  have c: "error_code rate_limit_error = Some 429" "error_code server_error \<noteq> Some 429"
    by (simp_all add: rate_limit_error_def server_error_def)
  have n: "USERNAME env_no_user = ''alice''" "USERNAME env_no_timeline = ''alice''"
    by (simp_all add: env_no_user_def env_no_timeline_def env0_def)
  from deleteTweets_preflight_error [of env_no_user state0 rate_limit_error]
    deleteTweets_preflight_error [of env_no_timeline state0 server_error "''42''"]
    u t c
  show ?thesis
    by (simp add: n state0_def)
qed

text \<open>
  Claim C9. Each iteration of the loop increments exactly one of the two counters;
  after \<open>k\<close> completed iterations, started as the code starts them at 0 and 0,
  \<open>deletedCount + failedCount = k\<close>; and the summary of a run on a fetched list of
  length \<open>N > 1\<close> reports counters whose sum is \<open>N - 1\<close>.
\<close>

theorem deleteTweets_counters:
  "(deleteTweets_body e len tweet (s, d, f) = (s', d', f') \<longrightarrow>
      (d' = d + 1 \<and> f' = f) \<or> (d' = d \<and> f' = f + 1))
 \<and> (k \<le> length candidates \<longrightarrow>
      deleteTweets_loop e len (take k candidates) (s, 0, 0) = (sk, dk, fk) \<longrightarrow>
        dk + fk = k
        \<and> deleteTweets_loop e len candidates (s, 0, 0) =
            deleteTweets_loop e len (drop k candidates) (sk, dk, fk))
 \<and> (checkApiStatus e (emit (Console (Log ''Checking API status...'')) s0) = (True, s2) \<longrightarrow>
    getAllTweetsAtOnce e (emit (Console (Log ''Retrieving tweets...'')) s2)
       = Some (Inr tweets, s4) \<longrightarrow>
    1 < length tweets \<longrightarrow>
      (\<exists>s7 dn fn.
          deleteTweets_loop e (length tweets - 1) (drop 1 tweets)
            (emit (Console (Log ''Starting deletion process...''))
               (emit (Console (LogFound (length tweets))) s4), 0, 0) = (s7, dn, fn)
        \<and> deleteTweets e s0 = Some (deleteTweets_summary dn fn s7)
        \<and> dn + fn = length tweets - 1))"
proof (intro conjI impI)
  assume "deleteTweets_body e len tweet (s, d, f) = (s', d', f')"
  then show "(d' = d + 1 \<and> f' = f) \<or> (d' = d \<and> f' = f + 1)"
    by (rule body_counters)
next
  assume "k \<le> length candidates"
    and "deleteTweets_loop e len (take k candidates) (s, 0, 0) = (sk, dk, fk)"
  then show "dk + fk = k"
    by (rule loop_take_counters)
next
  assume "deleteTweets_loop e len (take k candidates) (s, 0, 0) = (sk, dk, fk)"
  then show "deleteTweets_loop e len candidates (s, 0, 0) =
            deleteTweets_loop e len (drop k candidates) (sk, dk, fk)"
    using loop_split [of e len candidates "(s, 0, 0)" k] by simp
next
  assume "checkApiStatus e (emit (Console (Log ''Checking API status...'')) s0) = (True, s2)"
    and "getAllTweetsAtOnce e (emit (Console (Log ''Retrieving tweets...'')) s2)
       = Some (Inr tweets, s4)"
    and "1 < length tweets"
  then show "\<exists>s7 dn fn.
          deleteTweets_loop e (length tweets - 1) (drop 1 tweets)
            (emit (Console (Log ''Starting deletion process...''))
               (emit (Console (LogFound (length tweets))) s4), 0, 0) = (s7, dn, fn)
        \<and> deleteTweets e s0 = Some (deleteTweets_summary dn fn s7)
        \<and> dn + fn = length tweets - 1"
    by (rule deleteTweets_summary_aux)
qed

theorem deleteTweets_counters_witness:
  "fst (checkApiStatus env0 (emit (Console (Log ''Checking API status...'')) state0))
   \<and> (\<exists>s4. getAllTweetsAtOnce env0 (emit (Console (Log ''Retrieving tweets...''))
          (snd (checkApiStatus env0 (emit (Console (Log ''Checking API status...'')) state0))))
        = Some (Inr posts3, s4))
   \<and> 1 < length posts3
   \<and> (\<exists>s7 dn fn. deleteTweets env0 state0 = Some (deleteTweets_summary dn fn s7)
         \<and> dn + fn = 2)"
proof -
  from env0_fetch obtain s4 where
    fetch: "getAllTweetsAtOnce env0 (emit (Console (Log ''Retrieving tweets...''))
       (snd (checkApiStatus env0 (emit (Console (Log ''Checking API status...'')) state0))))
     = Some (Inr posts3, s4)"
    by blast
  have many: "1 < length posts3"
    by (simp add: posts3_def)
  from deleteTweets_counters [where e = env0 and ?s0.0 = state0, THEN conjunct2, THEN conjunct2,
      rule_format, OF env0_preflight fetch many]
  obtain s7 dn fn where
    "deleteTweets env0 state0 = Some (deleteTweets_summary dn fn s7)"
    "dn + fn = length posts3 - 1"
    by blast
  moreover have "length posts3 - 1 = 2"
    by (simp add: posts3_def)
  ultimately have "\<exists>s7 dn fn. deleteTweets env0 state0 = Some (deleteTweets_summary dn fn s7)
         \<and> dn + fn = 2"
    by auto
  with env0_fetch env0_preflight many show ?thesis
    by (metis fst_conv)
qed

end
